theory Spec2Isabelle
  imports Main "HOL-Library.AList" "HOL-Library.Char_ord" "HOL-Library.List_Lexorder"
begin

section \<open>Terraform IAM resources of \<open>deploy/config/tfconfig/iam.go\<close>\<close>

text \<open>
  The file declares two Terraform resources, \<open>ProjectIAMMembers\<close> and \<open>ServiceAccount\<close>,
  with the methods \<open>Init\<close>, \<open>ID\<close>, \<open>ResourceType\<close> and, for the first, a custom
  \<open>MarshalJSON\<close> and \<open>UnmarshalJSON\<close>.

  Conventions of the embedding:
  \<^item> a Go \<open>string\<close> is a \<open>string\<close> (a list of bytes);
  \<open>fmt.Sprintf("%s %s", a, b)\<close> is \<open>a @ '' '' @ b\<close>;
  \<^item> a pointer \<open>*ProjectIAMMember\<close> is an \<open>option\<close>, \<open>None\<close> being \<open>nil\<close>; reading a
  field through \<open>nil\<close> is the run-time panic \<open>NilPointerDereference\<close>;
  \<^item> a Go \<open>map[string]T\<close> is an association list with one pair per key;
  \<open>m[k] = v\<close> is \<open>AList.update k v m\<close>, \<open>len(m)\<close> is \<open>length m\<close> and a lookup is
  \<open>map_of m k\<close>. The order of the pairs has no meaning in Go; the encoder sorts by key;
  \<^item> a nil slice and an empty slice are both \<open>[]\<close>, a nil map and an empty map likewise
  (the code and the encoder's \<open>omitempty\<close> treat them alike);
  \<^item> a method is called on an instance, that is, through a receiver that is not nil;
  \<^item> a method with a pointer receiver that returns an \<open>error\<close> takes the receiver and
  returns the receiver after the call together with the result, so that what a call
  leaves behind is part of the model also when it fails;
  \<^item> the byte strings exchanged with \<open>encoding/json\<close> are represented by the JSON
  documents they denote (type \<open>json\<close>); a JSON string is the list of the bytes of its
  UTF-8 encoding.
\<close>

subsection \<open>Errors\<close>

datatype error =
    Errorf string  \<comment> \<open>the error of \<open>fmt.Errorf\<close>, with its message\<close>
  | UnmarshalTypeError string  \<comment> \<open>\<open>json.UnmarshalTypeError\<close>, with the kind of the JSON value\<close>
  | NilPointerDereference  \<comment> \<open>the run-time panic\<close>

subsection \<open>JSON documents\<close>

datatype json =
    JNull
  | JBool bool
  | JNumber string
  | JString string
  | JArray "json list"
  | JObject "(string \<times> json) list"

text \<open>The value of a field of a JSON object; \<open>None\<close> when the document is not an object or
  has no such field.\<close>

fun json_field :: "string \<Rightarrow> json \<Rightarrow> json option" where
  "json_field k (JObject fs) = map_of fs k"
| "json_field k _ = None"

text \<open>The name \<open>encoding/json\<close> gives to the kind of a JSON value in a type error.\<close>

fun json_kind :: "json \<Rightarrow> string" where
  "json_kind JNull = ''null''"
| "json_kind (JBool _) = ''bool''"
| "json_kind (JNumber _) = ''number''"
| "json_kind (JString _) = ''string''"
| "json_kind (JArray _) = ''array''"
| "json_kind (JObject _) = ''object''"

subsection \<open>Data model\<close>

text \<open>
  \<^verbatim>\<open>
  type ProjectIAMMember struct {
      Role   string `json:"role"`
      Member string `json:"member"`
      ForEach   map[string]*ProjectIAMMember `json:"for_each,omitempty"`
      Project   string                       `json:"project,omitempty"`
      DependsOn []string                     `json:"depends_on,omitempty"`
  }
  \<close>
  The selectors of the last two fields carry the prefix \<open>Member\<close>, since \<open>Project\<close> and
  \<open>DependsOn\<close> are also fields of the other two structs.
\<close>

datatype ProjectIAMMember =
  ProjectIAMMember
    (Role: string)
    (Member: string)
    (ForEach: "(string \<times> ProjectIAMMember option) list")
    (MemberProject: string)
    (MemberDependsOn: "string list")

text \<open>
  \<^verbatim>\<open>
  type ProjectIAMMembers struct {
      Members   []*ProjectIAMMember
      DependsOn []string
      project   string
  }
  \<close>
\<close>

record ProjectIAMMembers =
  Members :: "ProjectIAMMember option list"
  DependsOn :: "string list"
  project :: string

text \<open>
  \<^verbatim>\<open>
  type ServiceAccount struct {
      AccountID   string `json:"account_id"`
      Project     string `json:"project"`
      DisplayName string `json:"display_name"`
  }
  \<close>
\<close>

record ServiceAccount =
  AccountID :: string
  Project :: string
  DisplayName :: string

subsection \<open>Strings as \<open>encoding/json\<close> writes them\<close>

text \<open>
  \<open>encoding/json\<close> writes a Go string, a map key included, coerced to valid UTF-8: it
  walks the string, keeps every byte below \<open>0x80\<close> and every well-formed multi-byte
  sequence, and replaces each byte at which \<open>utf8.DecodeRuneInString\<close> returns
  \<open>RuneError\<close> with width 1 by U+FFFD (the bytes \<open>EF BF BD\<close>). Escapes such as
  \<^verbatim>\<open><\<close> are a matter of the text, not of the string denoted.

  \<open>utf8_first\<close> is the table \<open>first\<close> of package \<open>utf8\<close> for a lead byte of a multi-byte
  sequence: the length of the sequence and the range accepted for its second byte.
\<close>

definition byte_in :: "nat \<Rightarrow> nat \<Rightarrow> char \<Rightarrow> bool" where
  "byte_in lo hi c = (lo \<le> of_char c \<and> of_char c \<le> (hi::nat))"

definition utf8_first :: "char \<Rightarrow> (nat \<times> nat \<times> nat) option" where
  "utf8_first c =
     (if byte_in 0xC2 0xDF c then Some (2, 0x80, 0xBF)
      else if byte_in 0xE0 0xE0 c then Some (3, 0xA0, 0xBF)
      else if byte_in 0xE1 0xEC c then Some (3, 0x80, 0xBF)
      else if byte_in 0xED 0xED c then Some (3, 0x80, 0x9F)
      else if byte_in 0xEE 0xEF c then Some (3, 0x80, 0xBF)
      else if byte_in 0xF0 0xF0 c then Some (4, 0x90, 0xBF)
      else if byte_in 0xF1 0xF3 c then Some (4, 0x80, 0xBF)
      else if byte_in 0xF4 0xF4 c then Some (4, 0x80, 0x8F)
      else None)"

text \<open>
  The width \<open>utf8.DecodeRuneInString\<close> returns for a string that starts with the byte
  \<open>c\<close>, not below \<open>0x80\<close>, and goes on with \<open>cs\<close>: \<open>Some n\<close> for a well-formed sequence of
  \<open>n\<close> bytes, \<open>None\<close> for \<open>RuneError\<close> with width 1. The reads \<open>cs ! i\<close> come after the
  test of the length, as in the library.
\<close>

definition DecodeRune_width :: "char \<Rightarrow> string \<Rightarrow> nat option" where
  "DecodeRune_width c cs =
     (case utf8_first c of
        None \<Rightarrow> None
      | Some (sz, lo, hi) \<Rightarrow>
          if Suc (length cs) < sz then None
          else if \<not> byte_in lo hi (cs ! 0) then None
          else if sz \<le> 2 then Some 2
          else if \<not> byte_in 0x80 0xBF (cs ! 1) then None
          else if sz \<le> 3 then Some 3
          else if \<not> byte_in 0x80 0xBF (cs ! 2) then None
          else Some 4)"

definition RuneError_bytes :: string where
  "RuneError_bytes = [CHR 0xEF, CHR 0xBF, CHR 0xBD]"

fun utf8_coerced :: "string \<Rightarrow> string" where
  "utf8_coerced [] = []"
| "utf8_coerced (c # cs) =
     (if of_char c < (0x80::nat) then c # utf8_coerced cs
      else case DecodeRune_width c cs of
             None \<Rightarrow> RuneError_bytes @ utf8_coerced cs
           | Some n \<Rightarrow> c # take (n - 1) cs @ utf8_coerced (drop (n - 1) cs))"

subsection \<open>\<open>json.Marshal\<close> on a \<open>*ProjectIAMMember\<close>\<close>

text \<open>
  \<open>ProjectIAMMember\<close> has no marshaller of its own, so \<open>encoding/json\<close> encodes it from
  its field tags: an object with the fields in declaration order, where \<open>for_each\<close>,
  \<open>project\<close> and \<open>depends_on\<close> are left out when empty (\<open>omitempty\<close>); a nil pointer
  becomes \<open>null\<close>. For a map the encoder pairs each key with its value
  (\<open>json_of_entries\<close>), sorts the pairs by key (bytewise, as Go strings) and writes one
  field per pair, named by the key as written, that is, coerced (\<open>json_map_fields\<close>). Two
  keys that differ only in invalid bytes so give two fields of one name.
  The values of this model are finite trees, so the encoder's only error on this type
  (a pointer cycle) does not arise, and \<open>json_Marshal\<close> always returns a document.
\<close>

definition json_map_fields :: "(string \<times> json) list \<Rightarrow> (string \<times> json) list" where
  "json_map_fields kvs = map (\<lambda>kv. (utf8_coerced (fst kv), snd kv)) (sort_key fst kvs)"

fun json_of_member :: "ProjectIAMMember \<Rightarrow> json"
  and json_of_ptr :: "ProjectIAMMember option \<Rightarrow> json"
  and json_of_entries :: "(string \<times> ProjectIAMMember option) list \<Rightarrow> (string \<times> json) list"
where
  "json_of_member (ProjectIAMMember r m fe p d) =
     JObject ([(''role'', JString (utf8_coerced r)), (''member'', JString (utf8_coerced m))]
       @ (if fe = [] then [] else [(''for_each'', JObject (json_map_fields (json_of_entries fe)))])
       @ (if p = [] then [] else [(''project'', JString (utf8_coerced p))])
       @ (if d = [] then []
          else [(''depends_on'', JArray (map (\<lambda>s. JString (utf8_coerced s)) d))]))"
| "json_of_ptr None = JNull"
| "json_of_ptr (Some x) = json_of_member x"
| "json_of_entries [] = []"
| "json_of_entries (kv # es) = (fst kv, json_of_ptr (snd kv)) # json_of_entries es"

definition json_Marshal :: "ProjectIAMMember option \<Rightarrow> error + json" where
  "json_Marshal v = Inr (json_of_ptr v)"

subsection \<open>\<open>ProjectIAMMembers\<close>\<close>

text \<open>
  \<^verbatim>\<open>
  func (ms *ProjectIAMMembers) Init(projectID string) error {
      ms.project = projectID
      return nil
  }
  \<close>
\<close>

definition ProjectIAMMembers_Init ::
  "string \<Rightarrow> ProjectIAMMembers \<Rightarrow> ProjectIAMMembers \<times> error option" where
  "ProjectIAMMembers_Init projectID ms = (ms\<lparr>project := projectID\<rparr>, None)"

definition ProjectIAMMembers_ID :: "ProjectIAMMembers \<Rightarrow> string" where
  "ProjectIAMMembers_ID ms = ''project''"

definition ProjectIAMMembers_ResourceType :: "ProjectIAMMembers \<Rightarrow> string" where
  "ProjectIAMMembers_ResourceType ms = ''google_project_iam_member''"

text \<open>
  The key of a member in the \<open>for_each\<close> map:
  \<^verbatim>\<open>key := fmt.Sprintf("%s %s", m.Role, m.Member)\<close>.
\<close>

definition forEach_key :: "ProjectIAMMember \<Rightarrow> string" where
  "forEach_key m = Role m @ '' '' @ Member m"

text \<open>
  The loop of \<open>MarshalJSON\<close>, from the members still to visit and the map built so far:
  \<^verbatim>\<open>
  for _, m := range ms.Members {
      key := fmt.Sprintf("%s %s", m.Role, m.Member)
      forEach[key] = m
  }
  \<close>
  A nil member panics at \<open>m.Role\<close>.
\<close>

fun forEach_range ::
  "ProjectIAMMember option list \<Rightarrow> (string \<times> ProjectIAMMember option) list
    \<Rightarrow> error + (string \<times> ProjectIAMMember option) list" where
  "forEach_range [] forEach = Inr forEach"
| "forEach_range (None # rest) forEach = Inl NilPointerDereference"
| "forEach_range (Some m # rest) forEach =
     forEach_range rest (AList.update (forEach_key m) (Some m) forEach)"

text \<open>
  \<^verbatim>\<open>
  func (ms *ProjectIAMMembers) MarshalJSON() ([]byte, error) {
      forEach := make(map[string]*ProjectIAMMember)
      for ... (above)
      return json.Marshal(&ProjectIAMMember{
          ForEach:   forEach,
          Project:   ms.project,
          Role:      "${each.value.role}",
          Member:    "${each.value.member}",
          DependsOn: ms.DependsOn,
      })
  }
  \<close>
  \<open>MarshalJSON_value\<close> is the struct handed to \<open>json.Marshal\<close>. The method assigns to no
  field of its receiver, so the receiver it returns is the one it was given.
\<close>

definition MarshalJSON_value ::
  "ProjectIAMMembers \<Rightarrow> (string \<times> ProjectIAMMember option) list \<Rightarrow> ProjectIAMMember" where
  "MarshalJSON_value ms forEach =
     ProjectIAMMember ''${each.value.role}'' ''${each.value.member}'' forEach
       (project ms) (DependsOn ms)"

definition MarshalJSON :: "ProjectIAMMembers \<Rightarrow> ProjectIAMMembers \<times> (error + json)" where
  "MarshalJSON ms =
     (ms, case forEach_range (Members ms) [] of
            Inl e \<Rightarrow> Inl e
          | Inr forEach \<Rightarrow> json_Marshal (Some (MarshalJSON_value ms forEach)))"

text \<open>
  \<^verbatim>\<open>
  func (ms *ProjectIAMMembers) UnmarshalJSON(b []byte) error {
      return json.Unmarshal(b, &ms.Members)
  }
  \<close>
  \<open>json.Unmarshal\<close> into a slice dispatches on the JSON value: \<open>null\<close> sets the slice to
  nil, an array is decoded element by element, and any other value is an
  \<open>UnmarshalTypeError\<close> that leaves the slice as it was. How the elements of an array are
  decoded into \<open>*ProjectIAMMember\<close> (matching of field names, reuse of the elements the
  slice already holds, errors inside an element) is the library's business and is a
  parameter \<open>elems\<close> here: from the array's elements and the old slice to the new slice
  and the error, if any.
\<close>

definition json_Unmarshal_slice ::
  "(json list \<Rightarrow> 'a list \<Rightarrow> 'a list \<times> error option) \<Rightarrow> json \<Rightarrow> 'a list
    \<Rightarrow> 'a list \<times> error option" where
  "json_Unmarshal_slice elems b v =
     (case b of
        JNull \<Rightarrow> ([], None)
      | JArray xs \<Rightarrow> elems xs v
      | _ \<Rightarrow> (v, Some (UnmarshalTypeError (json_kind b))))"

definition UnmarshalJSON ::
  "(json list \<Rightarrow> ProjectIAMMember option list \<Rightarrow> ProjectIAMMember option list \<times> error option)
    \<Rightarrow> json \<Rightarrow> ProjectIAMMembers \<Rightarrow> ProjectIAMMembers \<times> error option" where
  "UnmarshalJSON elems b ms =
     (case json_Unmarshal_slice elems b (Members ms) of
        (v, err) \<Rightarrow> (ms\<lparr>Members := v\<rparr>, err))"

subsection \<open>\<open>ServiceAccount\<close>\<close>

text \<open>
  \<^verbatim>\<open>
  func (a *ServiceAccount) Init(projectID string) error {
      if a.Project != "" {
          return fmt.Errorf("project must not be set: %v", a.Project)
      }
      a.Project = projectID
      return nil
  }
  \<close>
\<close>

definition ServiceAccount_Init ::
  "string \<Rightarrow> ServiceAccount \<Rightarrow> ServiceAccount \<times> error option" where
  "ServiceAccount_Init projectID a =
     (if Project a \<noteq> [] then (a, Some (Errorf (''project must not be set: '' @ Project a)))
      else (a\<lparr>Project := projectID\<rparr>, None))"

definition ServiceAccount_ID :: "ServiceAccount \<Rightarrow> string" where
  "ServiceAccount_ID a = AccountID a"

definition ServiceAccount_ResourceType :: "ServiceAccount \<Rightarrow> string" where
  "ServiceAccount_ResourceType a = ''google_service_account''"

subsection \<open>Sequences of calls on a \<open>ServiceAccount\<close>\<close>

text \<open>
  The methods of \<open>ServiceAccount\<close> as calls on one instance, and the instance they leave
  behind. \<open>ID\<close> and \<open>ResourceType\<close> only read the receiver.
\<close>

datatype ServiceAccount_call = Call_Init string | Call_ID | Call_ResourceType

fun ServiceAccount_after :: "ServiceAccount_call \<Rightarrow> ServiceAccount \<Rightarrow> ServiceAccount" where
  "ServiceAccount_after (Call_Init projectID) a = fst (ServiceAccount_Init projectID a)"
| "ServiceAccount_after Call_ID a = a"
| "ServiceAccount_after Call_ResourceType a = a"

definition ServiceAccount_calls :: "ServiceAccount_call list \<Rightarrow> ServiceAccount \<Rightarrow> ServiceAccount" where
  "ServiceAccount_calls cs a = fold ServiceAccount_after cs a"

section \<open>Properties\<close>

subsection \<open>The loop of \<open>MarshalJSON\<close> as a fold\<close>

lemma forEach_range_Some:
  "forEach_range (map Some members) forEach =
     Inr (fold (\<lambda>m. AList.update (forEach_key m) (Some m)) members forEach)"
  by (induction members arbitrary: forEach) simp_all

lemma forEach_range_nil:
  "None \<in> set ps \<Longrightarrow> forEach_range ps forEach = Inl NilPointerDereference"
proof (induction ps arbitrary: forEach)
  case Nil
  then show ?case by simp
next
  case (Cons p ps)
  then show ?case by (cases p) auto
qed

lemma fold_update_keys:
  "fst ` set (fold (\<lambda>m. AList.update (f m) (g m)) xs al) = fst ` set al \<union> f ` set xs"
  by (induction xs arbitrary: al) (auto simp: dom_update)

lemma fold_update_distinct:
  "distinct (map fst al) \<Longrightarrow> distinct (map fst (fold (\<lambda>m. AList.update (f m) (g m)) xs al))"
  by (induction xs arbitrary: al) (simp_all add: distinct_update)

lemma fold_update_lookup:
  "map_of (fold (\<lambda>m. AList.update (f m) (g m)) xs al) k =
     (if k \<in> f ` set xs then Some (g (last (filter (\<lambda>m. f m = k) xs))) else map_of al k)"
proof (induction xs arbitrary: al rule: rev_induct)
  case Nil
  then show ?case by simp
next
  case (snoc x xs)
  then show ?case by (auto simp: update_conv')
qed

lemma fold_update_length:
  "length (fold (\<lambda>m. AList.update (f m) (g m)) xs []) = card (f ` set xs)"
proof -
  let ?al = "fold (\<lambda>m. AList.update (f m) (g m)) xs []"
  have "distinct (map fst ?al)" by (rule fold_update_distinct) simp
  then have "length (map fst ?al) = card (set (map fst ?al))"
    by (simp only: distinct_card)
  also have "set (map fst ?al) = f ` set xs"
    using fold_update_keys [of f g xs "[]"] by simp
  finally show ?thesis by simp
qed

lemma card_image_length:
  "card (f ` set xs) = length xs \<longleftrightarrow> distinct (map f xs)"
  using card_distinct [of "map f xs"] distinct_card [of "map f xs"] by auto

lemma card_image_less:
  "\<not> distinct (map f xs) \<Longrightarrow> card (f ` set xs) < length xs"
  using card_image_length [of f xs] card_length [of "map f xs"] by simp

lemma last_filter_distinct:
  "distinct (map f xs) \<Longrightarrow> x \<in> set xs \<Longrightarrow> last (filter (\<lambda>m. f m = f x) xs) = x"
proof (induction xs rule: rev_induct)
  case Nil
  then show ?case by simp
next
  case (snoc y ys)
  then show ?case by (auto simp: image_iff)
qed

lemma fold_update_nonempty:
  "xs \<noteq> [] \<Longrightarrow> fold (\<lambda>m. AList.update (f m) (g m)) xs al \<noteq> []"
  by (induction xs arbitrary: al rule: rev_induct) simp_all

lemma fold_update_set:
  "set (fold (\<lambda>m. AList.update (f m) (g m)) xs []) =
     (\<lambda>m. (f m, g (last (filter (\<lambda>x. f x = f m) xs)))) ` set xs"
proof -
  let ?al = "fold (\<lambda>m. AList.update (f m) (g m)) xs []"
  have d: "distinct (map fst ?al)"
    by (rule fold_update_distinct) simp
  have "(k, v) \<in> set ?al \<longleftrightarrow>
      (k, v) \<in> (\<lambda>m. (f m, g (last (filter (\<lambda>x. f x = f m) xs)))) ` set xs" for k v
  proof -
    have "(k, v) \<in> set ?al \<longleftrightarrow> map_of ?al k = Some v"
      using d by simp
    also have "\<dots> \<longleftrightarrow> k \<in> f ` set xs \<and> v = g (last (filter (\<lambda>x. f x = k) xs))"
      by (auto simp: fold_update_lookup)
    also have "\<dots> \<longleftrightarrow> (k, v) \<in> (\<lambda>m. (f m, g (last (filter (\<lambda>x. f x = f m) xs)))) ` set xs"
      by auto
    finally show ?thesis .
  qed
  then show ?thesis
    by (intro set_eqI) (simp only: split_paired_all)
qed

lemma MarshalJSON_Some:
  assumes "Members ms = map Some members"
  shows "forEach_range (Members ms) [] =
           Inr (fold (\<lambda>m. AList.update (forEach_key m) (Some m)) members [])"
    and "snd (MarshalJSON ms) =
           Inr (json_of_member (MarshalJSON_value ms
             (fold (\<lambda>m. AList.update (forEach_key m) (Some m)) members [])))"
  using assms by (simp_all add: MarshalJSON_def forEach_range_Some json_Marshal_def)

lemma MarshalJSON_nil:
  "None \<in> set (Members ms) \<Longrightarrow> snd (MarshalJSON ms) = Inl NilPointerDereference"
  by (simp add: MarshalJSON_def forEach_range_nil)

lemma list_option_cases:
  "None \<in> set ps \<or> (\<exists>xs. ps = map Some xs)"
proof (induction ps)
  case Nil
  then show ?case by simp
next
  case (Cons p ps)
  show ?case
  proof (cases p)
    case None
    then show ?thesis by simp
  next
    case (Some x)
    from Cons show ?thesis
    proof
      assume "None \<in> set ps"
      then show ?thesis by simp
    next
      assume "\<exists>xs. ps = map Some xs"
      then obtain xs where "ps = map Some xs" ..
      then have "p # ps = map Some (x # xs)"
        using Some by simp
      then have "\<exists>ys. p # ps = map Some ys" ..
      then show ?thesis ..
    qed
  qed
qed

subsection \<open>The encoded \<open>for_each\<close> object\<close>

text \<open>A string of bytes below \<open>0x80\<close> is written as it is.\<close>

lemma utf8_coerced_ascii:
  "list_all (\<lambda>c. of_char c < (0x80::nat)) s \<Longrightarrow> utf8_coerced s = s"
  by (induction s) simp_all

lemma json_of_entries_map:
  "json_of_entries es = map (\<lambda>kv. (fst kv, json_of_ptr (snd kv))) es"
  by (induction es) simp_all

lemma json_map_fields_length: "length (json_map_fields kvs) = length kvs"
  by (simp add: json_map_fields_def)

lemma json_map_fields_set:
  "set (json_map_fields kvs) = (\<lambda>kv. (utf8_coerced (fst kv), snd kv)) ` set kvs"
  by (simp add: json_map_fields_def)

lemma json_map_fields_distinct:
  assumes "distinct (map (\<lambda>kv. utf8_coerced (fst kv)) kvs)"
  shows "distinct (map fst (json_map_fields kvs))"
proof -
  have "map fst (json_map_fields kvs) = map (\<lambda>kv. utf8_coerced (fst kv)) (sort_key fst kvs)"
    by (simp add: json_map_fields_def comp_def)
  with assms show ?thesis
    by (simp add: distinct_map)
qed

lemma for_each_entries_length:
  "length (json_map_fields (json_of_entries forEach)) = length forEach"
  by (simp add: json_map_fields_length json_of_entries_map)

lemma for_each_entries_set:
  "set (json_map_fields (json_of_entries forEach)) =
     (\<lambda>kv. (utf8_coerced (fst kv), json_of_ptr (snd kv))) ` set forEach"
  by (simp add: json_map_fields_set json_of_entries_map image_image)

lemma for_each_field:
  "json_field ''for_each'' (json_of_member (MarshalJSON_value ms forEach)) =
     (if forEach = [] then None
      else Some (JObject (json_map_fields (json_of_entries forEach))))"
  by (simp add: MarshalJSON_value_def)

lemma role_member_fields:
  "json_field ''role'' (json_of_member (MarshalJSON_value ms forEach)) =
     Some (JString ''${each.value.role}'')"
  "json_field ''member'' (json_of_member (MarshalJSON_value ms forEach)) =
     Some (JString ''${each.value.member}'')"
  by (simp_all add: MarshalJSON_value_def utf8_coerced_ascii)

lemma project_field:
  "json_field ''project'' (json_of_member (MarshalJSON_value ms forEach)) =
     (if project ms = [] then None else Some (JString (utf8_coerced (project ms))))"
  by (simp add: MarshalJSON_value_def)

lemma forEach_entries_set:
  "set (json_map_fields (json_of_entries
       (fold (\<lambda>m. AList.update (forEach_key m) (Some m)) members []))) =
     (\<lambda>m. (utf8_coerced (forEach_key m),
            json_of_member (last (filter (\<lambda>x. forEach_key x = forEach_key m) members))))
       ` set members"
  by (simp add: for_each_entries_set fold_update_set image_image)

lemma distinct_coerced_keys:
  assumes "distinct (map (\<lambda>m. utf8_coerced (forEach_key m)) members)"
  shows "distinct (map forEach_key members)"
proof -
  have "map (\<lambda>m. utf8_coerced (forEach_key m)) members =
      map utf8_coerced (map forEach_key members)"
    by simp
  with assms have "distinct (map utf8_coerced (map forEach_key members))"
    by (simp only:)
  then show ?thesis
    by (simp only: distinct_map)
qed

lemma forEach_fields_distinct:
  assumes "distinct (map (\<lambda>m. utf8_coerced (forEach_key m)) members)"
  shows "distinct (map fst (json_map_fields (json_of_entries
           (fold (\<lambda>m. AList.update (forEach_key m) (Some m)) members []))))"
proof -
  let ?fe = "fold (\<lambda>m. AList.update (forEach_key m) (Some m)) members []"
  have d: "distinct (map fst ?fe)"
    by (rule fold_update_distinct) simp
  have keys: "fst ` set ?fe = forEach_key ` set members"
    using fold_update_keys [of forEach_key Some members "[]"] by simp
  have "inj_on utf8_coerced (forEach_key ` set members)"
  proof (rule inj_onI)
    fix k k'
    assume "k \<in> forEach_key ` set members" and "k' \<in> forEach_key ` set members"
      and eq: "utf8_coerced k = utf8_coerced k'"
    then obtain a b where a: "a \<in> set members" "k = forEach_key a"
      and b: "b \<in> set members" "k' = forEach_key b"
      by blast
    have "inj_on (\<lambda>m. utf8_coerced (forEach_key m)) (set members)"
      using assms by (simp add: distinct_map)
    from inj_onD [OF this, of a b] a b eq show "k = k'"
      by simp
  qed
  then have "inj_on utf8_coerced (set (map fst ?fe))"
    using keys by simp
  with d have "distinct (map utf8_coerced (map fst ?fe))"
    by (simp only: distinct_map)
  then have "distinct (map (\<lambda>kv. utf8_coerced (fst kv)) (json_of_entries ?fe))"
    by (simp add: json_of_entries_map comp_def)
  then show ?thesis
    by (rule json_map_fields_distinct)
qed

subsection \<open>Keys and (role, member) pairs\<close>

text \<open>
  Two members with the same role and member have the same key. The converse needs more:
  the key joins the two strings with a space, so it determines the pair only when the
  space can be found again, for instance when no role contains one; and the key as
  written determines the key only up to its invalid bytes.
\<close>

lemma split_at_separator:
  "c \<notin> set xs \<Longrightarrow> c \<notin> set ys \<Longrightarrow> xs @ c # a = ys @ c # b \<Longrightarrow> xs = ys \<and> a = b"
proof (induction xs arbitrary: ys)
  case Nil
  then show ?case by (cases ys) auto
next
  case (Cons x xs)
  then show ?case by (cases ys) auto
qed

lemma forEach_key_inj:
  assumes "CHR '' '' \<notin> set (Role a)" and "CHR '' '' \<notin> set (Role b)"
    and "forEach_key a = forEach_key b"
  shows "Role a = Role b \<and> Member a = Member b"
  using assms split_at_separator [of "CHR '' ''" "Role a" "Role b" "Member a" "Member b"]
  by (simp add: forEach_key_def)

lemma distinct_forEach_keys:
  assumes "distinct (map (\<lambda>m. (Role m, Member m)) members)"
    and "\<forall>m\<in>set members. CHR '' '' \<notin> set (Role m)"
  shows "distinct (map forEach_key members)"
proof -
  have pairs: "inj_on (\<lambda>m. (Role m, Member m)) (set members)" and d: "distinct members"
    using assms(1) by (simp_all add: distinct_map)
  have "inj_on forEach_key (set members)"
  proof (rule inj_onI)
    fix a b
    assume a: "a \<in> set members" and b: "b \<in> set members"
      and k: "forEach_key a = forEach_key b"
    have "Role a = Role b \<and> Member a = Member b"
      using assms(2) a b k by (intro forEach_key_inj) simp_all
    then show "a = b"
      using inj_onD [OF pairs, of a b] a b by simp
  qed
  with d show ?thesis
    by (simp add: distinct_map)
qed

lemma same_pair_same_key:
  assumes "\<not> distinct (map (\<lambda>m. (Role m, Member m)) members)"
  shows "\<not> distinct (map forEach_key members)"
proof
  assume "distinct (map forEach_key members)"
  moreover have "map forEach_key members =
      map (\<lambda>p. fst p @ '' '' @ snd p) (map (\<lambda>m. (Role m, Member m)) members)"
    by (simp add: forEach_key_def)
  ultimately have "distinct (map (\<lambda>m. (Role m, Member m)) members)"
    by (simp only: distinct_map)
  with assms show False
    by simp
qed

lemma distinct_written_keys:
  assumes "distinct (map (\<lambda>m. (Role m, Member m)) members)"
    and "\<forall>m\<in>set members. CHR '' '' \<notin> set (Role m)"
    and "\<forall>m\<in>set members. list_all (\<lambda>c. of_char c < (0x80::nat)) (forEach_key m)"
  shows "distinct (map (\<lambda>m. utf8_coerced (forEach_key m)) members)"
proof -
  have "map (\<lambda>m. utf8_coerced (forEach_key m)) members = map forEach_key members"
    using assms(3) by (intro map_cong) (simp_all add: utf8_coerced_ascii)
  moreover have "distinct (map forEach_key members)"
    using assms(1,2) by (rule distinct_forEach_keys)
  ultimately show ?thesis
    by (simp only:)
qed

subsection \<open>What \<open>UnmarshalJSON\<close> leaves behind\<close>

lemma UnmarshalJSON_result:
  assumes "UnmarshalJSON elems b ms = (ms', None)"
  shows "b = JNull \<and> Members ms' = []
       \<or> (\<exists>xs. b = JArray xs \<and> elems xs (Members ms) = (Members ms', None))"
    and "DependsOn ms' = DependsOn ms"
    and "project ms' = project ms"
  using assms
  by (cases b; auto simp: UnmarshalJSON_def json_Unmarshal_slice_def split: prod.splits)+

subsection \<open>A bound \<open>ServiceAccount\<close>\<close>

lemma ServiceAccount_after_bound:
  "Project a \<noteq> [] \<Longrightarrow> ServiceAccount_after c a = a"
  by (cases c) (simp_all add: ServiceAccount_Init_def)

section \<open>The claims\<close>

text \<open>
  Claim C1, as amended. For every non-empty list of N \<open>ProjectIAMMember\<close> values whose
  keys (\<open>Role\<close> and \<open>Member\<close> joined with a single space), as \<open>encoding/json\<close> writes
  them, are pairwise distinct, \<open>MarshalJSON\<close> builds a \<open>for_each\<close> map with exactly N
  entries, one per key, in which each member is stored under its key; and the document
  it returns has a \<open>for_each\<close> object with exactly N fields of pairwise distinct names,
  the written keys, holding the encoding of each member under the member's written key.
  A key is written with each byte that is not valid UTF-8 replaced by U+FFFD; a key of
  bytes below \<open>0x80\<close> is written as it is (\<open>utf8_coerced_ascii\<close>), and by
  \<open>distinct_written_keys\<close> such keys are pairwise distinct when the (role, member) pairs
  are and no role contains a space.
\<close>

theorem forEach_distinct_keys:
  assumes "members \<noteq> []"
    and "distinct (map (\<lambda>m. utf8_coerced (forEach_key m)) members)"
    and "Members ms = map Some members"
  shows "\<exists>forEach entries.
      forEach_range (Members ms) [] = Inr forEach
    \<and> distinct (map fst forEach)
    \<and> length forEach = length members
    \<and> fst ` set forEach = forEach_key ` set members
    \<and> (\<forall>m\<in>set members. map_of forEach (forEach_key m) = Some (Some m))
    \<and> snd (MarshalJSON ms) = Inr (json_of_member (MarshalJSON_value ms forEach))
    \<and> json_field ''for_each'' (json_of_member (MarshalJSON_value ms forEach)) =
        Some (JObject entries)
    \<and> distinct (map fst entries)
    \<and> length entries = length members
    \<and> fst ` set entries = (\<lambda>m. utf8_coerced (forEach_key m)) ` set members
    \<and> (\<forall>m\<in>set members.
          map_of entries (utf8_coerced (forEach_key m)) = Some (json_of_member m))"
proof -
  let ?fe = "fold (\<lambda>m. AList.update (forEach_key m) (Some m)) members []"
  let ?es = "json_map_fields (json_of_entries ?fe)"
  have dk: "distinct (map forEach_key members)"
    using assms(2) by (rule distinct_coerced_keys)
  have d: "distinct (map fst ?fe)"
    by (rule fold_update_distinct) simp
  have len: "length ?fe = length members"
    using dk by (simp add: fold_update_length card_image_length)
  have keys: "fst ` set ?fe = forEach_key ` set members"
    using fold_update_keys [of forEach_key Some members "[]"] by simp
  have look: "\<forall>m\<in>set members. map_of ?fe (forEach_key m) = Some (Some m)"
    using dk by (simp add: fold_update_lookup last_filter_distinct)
  have ne: "?fe \<noteq> []"
    using assms(1) by (rule fold_update_nonempty)
  have r: "forEach_range (Members ms) [] = Inr ?fe"
    using assms(3) by (rule MarshalJSON_Some(1))
  have out: "snd (MarshalJSON ms) = Inr (json_of_member (MarshalJSON_value ms ?fe))"
    using assms(3) by (rule MarshalJSON_Some(2))
  have fld: "json_field ''for_each'' (json_of_member (MarshalJSON_value ms ?fe)) =
      Some (JObject ?es)"
    using ne by (simp add: for_each_field)
  have de: "distinct (map fst ?es)"
    using assms(2) by (rule forEach_fields_distinct)
  have le: "length ?es = length members"
    using len by (simp only: for_each_entries_length)
  have es: "set ?es = (\<lambda>m. (utf8_coerced (forEach_key m), json_of_member m)) ` set members"
  proof -
    have "(\<lambda>m. (utf8_coerced (forEach_key m),
              json_of_member (last (filter (\<lambda>x. forEach_key x = forEach_key m) members))))
            ` set members
        = (\<lambda>m. (utf8_coerced (forEach_key m), json_of_member m)) ` set members"
      using dk by (intro image_cong) (simp_all add: last_filter_distinct)
    then show ?thesis
      by (simp only: forEach_entries_set)
  qed
  have ek: "fst ` set ?es = (\<lambda>m. utf8_coerced (forEach_key m)) ` set members"
    by (simp only: es image_image fst_conv)
  have el: "\<forall>m\<in>set members. map_of ?es (utf8_coerced (forEach_key m)) = Some (json_of_member m)"
  proof
    fix m
    assume "m \<in> set members"
    then have "(utf8_coerced (forEach_key m), json_of_member m) \<in> set ?es"
      by (simp only: es) (rule imageI)
    with de show "map_of ?es (utf8_coerced (forEach_key m)) = Some (json_of_member m)"
      by (rule map_of_is_SomeI)
  qed
  from r d len keys look out fld de le ek el show ?thesis
    by blast
qed

text \<open>The theorem at the two members of the specification's example.\<close>

theorem forEach_distinct_keys_witness:
  "[ProjectIAMMember ''roles/viewer'' ''user:a@x.com'' [] [] [],
    ProjectIAMMember ''roles/editor'' ''user:b@x.com'' [] [] []] \<noteq> []
   \<and> distinct (map (\<lambda>m. utf8_coerced (forEach_key m))
        [ProjectIAMMember ''roles/viewer'' ''user:a@x.com'' [] [] [],
         ProjectIAMMember ''roles/editor'' ''user:b@x.com'' [] [] []])
   \<and> (\<exists>forEach entries.
        forEach_range
          [Some (ProjectIAMMember ''roles/viewer'' ''user:a@x.com'' [] [] []),
           Some (ProjectIAMMember ''roles/editor'' ''user:b@x.com'' [] [] [])] [] = Inr forEach
      \<and> length forEach = 2
      \<and> map_of forEach ''roles/editor user:b@x.com'' =
          Some (Some (ProjectIAMMember ''roles/editor'' ''user:b@x.com'' [] [] []))
      \<and> json_field ''for_each'' (json_of_member (MarshalJSON_value
            \<lparr>Members = [Some (ProjectIAMMember ''roles/viewer'' ''user:a@x.com'' [] [] []),
                        Some (ProjectIAMMember ''roles/editor'' ''user:b@x.com'' [] [] [])],
             DependsOn = [], project = ''proj1''\<rparr> forEach)) = Some (JObject entries)
      \<and> length entries = 2
      \<and> map_of entries ''roles/editor user:b@x.com'' =
          Some (JObject [(''role'', JString ''roles/editor''),
                         (''member'', JString ''user:b@x.com'')]))"
proof -
  let ?a = "ProjectIAMMember ''roles/viewer'' ''user:a@x.com'' [] [] []"
  let ?b = "ProjectIAMMember ''roles/editor'' ''user:b@x.com'' [] [] []"
  let ?ms = "\<lparr>Members = [Some ?a, Some ?b], DependsOn = [], project = ''proj1''\<rparr>"
  have h1: "[?a, ?b] \<noteq> []" by simp
  have h2: "distinct (map (\<lambda>m. utf8_coerced (forEach_key m)) [?a, ?b])"
    by (simp add: forEach_key_def utf8_coerced_ascii)
  have h3: "Members ?ms = map Some [?a, ?b]" by simp
  have k: "forEach_key ?b = ''roles/editor user:b@x.com''"
    "utf8_coerced (forEach_key ?b) = ''roles/editor user:b@x.com''"
    by (simp_all add: forEach_key_def utf8_coerced_ascii)
  have j: "json_of_member ?b =
      JObject [(''role'', JString ''roles/editor''), (''member'', JString ''user:b@x.com'')]"
    by (simp add: utf8_coerced_ascii)
  from forEach_distinct_keys [OF h1 h2 h3] obtain forEach entries where
    "forEach_range (Members ?ms) [] = Inr forEach" "length forEach = length [?a, ?b]"
    "\<forall>m\<in>set [?a, ?b]. map_of forEach (forEach_key m) = Some (Some m)"
    "json_field ''for_each'' (json_of_member (MarshalJSON_value ?ms forEach)) =
      Some (JObject entries)"
    "length entries = length [?a, ?b]"
    "\<forall>m\<in>set [?a, ?b]. map_of entries (utf8_coerced (forEach_key m)) = Some (json_of_member m)"
    by (elim exE conjE) (rule that)
  then have "forEach_range [Some ?a, Some ?b] [] = Inr forEach \<and> length forEach = 2
      \<and> map_of forEach ''roles/editor user:b@x.com'' = Some (Some ?b)
      \<and> json_field ''for_each'' (json_of_member (MarshalJSON_value ?ms forEach)) =
          Some (JObject entries)
      \<and> length entries = 2
      \<and> map_of entries ''roles/editor user:b@x.com'' =
          Some (JObject [(''role'', JString ''roles/editor''),
                         (''member'', JString ''user:b@x.com'')])"
    using k j by simp
  with h1 h2 show ?thesis by blast
qed

text \<open>
  Claim C1 as stated asks only for distinct (role, member) pairs. The pairs
  \<open>(''a b'', ''c'')\<close> and \<open>(''a'', ''b c'')\<close> are distinct and have the same key
  \<open>''a b c''\<close>: the map built from these two members has one entry, and so has the
  \<open>for_each\<close> object of the document.
\<close>

theorem distinct_pairs_collide:
  "(Role (ProjectIAMMember ''a b'' ''c'' [] [] []), Member (ProjectIAMMember ''a b'' ''c'' [] [] []))
     \<noteq> (Role (ProjectIAMMember ''a'' ''b c'' [] [] []), Member (ProjectIAMMember ''a'' ''b c'' [] [] []))
   \<and> forEach_range
        [Some (ProjectIAMMember ''a b'' ''c'' [] [] []),
         Some (ProjectIAMMember ''a'' ''b c'' [] [] [])] []
       = Inr [(''a b c'', Some (ProjectIAMMember ''a'' ''b c'' [] [] []))]
   \<and> snd (MarshalJSON
        \<lparr>Members = [Some (ProjectIAMMember ''a b'' ''c'' [] [] []),
                    Some (ProjectIAMMember ''a'' ''b c'' [] [] [])],
         DependsOn = [], project = []\<rparr>)
       = Inr (JObject
          [(''role'', JString ''${each.value.role}''),
           (''member'', JString ''${each.value.member}''),
           (''for_each'', JObject
              [(''a b c'', JObject [(''role'', JString ''a''), (''member'', JString ''b c'')])])])"
  by (simp add: MarshalJSON_def MarshalJSON_value_def json_Marshal_def forEach_key_def
      json_map_fields_def utf8_coerced_ascii)

text \<open>
  Claim C3. For every list of N \<open>ProjectIAMMember\<close> values in which two members have the
  same (role, member) pair, the \<open>for_each\<close> map built by \<open>MarshalJSON\<close> has fewer than N
  entries; its keys are exactly the keys of the members, a colliding key included, and
  the entry under the key of any member is the last member of the list with that key.
  The \<open>for_each\<close> object of the document returned has one field per entry of the map,
  so fewer than N, and its fields are exactly, for each member, the member's key as
  written with the encoding of the last member of the list that has this key.
\<close>

theorem forEach_last_write_wins:
  assumes "\<not> distinct (map (\<lambda>m. (Role m, Member m)) members)"
    and "Members ms = map Some members"
  shows "\<exists>forEach entries.
      forEach_range (Members ms) [] = Inr forEach
    \<and> distinct (map fst forEach)
    \<and> fst ` set forEach = forEach_key ` set members
    \<and> length forEach < length members
    \<and> (\<forall>m\<in>set members.
          map_of forEach (forEach_key m) =
            Some (Some (last (filter (\<lambda>x. forEach_key x = forEach_key m) members))))
    \<and> snd (MarshalJSON ms) = Inr (json_of_member (MarshalJSON_value ms forEach))
    \<and> json_field ''for_each'' (json_of_member (MarshalJSON_value ms forEach)) =
        Some (JObject entries)
    \<and> length entries = length forEach
    \<and> set entries =
        (\<lambda>m. (utf8_coerced (forEach_key m),
               json_of_member (last (filter (\<lambda>x. forEach_key x = forEach_key m) members))))
          ` set members"
proof -
  let ?fe = "fold (\<lambda>m. AList.update (forEach_key m) (Some m)) members []"
  let ?es = "json_map_fields (json_of_entries ?fe)"
  have nd: "\<not> distinct (map forEach_key members)"
    using assms(1) by (rule same_pair_same_key)
  then have "members \<noteq> []"
    by auto
  then have ne: "?fe \<noteq> []"
    by (rule fold_update_nonempty)
  have d: "distinct (map fst ?fe)"
    by (rule fold_update_distinct) simp
  have keys: "fst ` set ?fe = forEach_key ` set members"
    using fold_update_keys [of forEach_key Some members "[]"] by simp
  have len: "length ?fe < length members"
    using nd by (simp add: fold_update_length card_image_less)
  have look: "\<forall>m\<in>set members. map_of ?fe (forEach_key m) =
      Some (Some (last (filter (\<lambda>x. forEach_key x = forEach_key m) members)))"
    by (simp add: fold_update_lookup)
  have r: "forEach_range (Members ms) [] = Inr ?fe"
    using assms(2) by (rule MarshalJSON_Some(1))
  have out: "snd (MarshalJSON ms) = Inr (json_of_member (MarshalJSON_value ms ?fe))"
    using assms(2) by (rule MarshalJSON_Some(2))
  have fld: "json_field ''for_each'' (json_of_member (MarshalJSON_value ms ?fe)) =
      Some (JObject ?es)"
    using ne by (simp add: for_each_field)
  have le: "length ?es = length ?fe"
    by (rule for_each_entries_length)
  have es: "set ?es = (\<lambda>m. (utf8_coerced (forEach_key m),
      json_of_member (last (filter (\<lambda>x. forEach_key x = forEach_key m) members)))) ` set members"
    by (rule forEach_entries_set)
  from r d keys len look out fld le es show ?thesis
    by blast
qed

text \<open>Two members with the same role and member that differ in \<open>Project\<close>: the second
  one is kept.\<close>

theorem forEach_last_write_wins_witness:
  "\<not> distinct (map (\<lambda>m. (Role m, Member m))
        [ProjectIAMMember ''roles/viewer'' ''user:a@x.com'' [] ''first'' [],
         ProjectIAMMember ''roles/viewer'' ''user:a@x.com'' [] ''second'' []])
   \<and> (\<exists>forEach.
        forEach_range
          [Some (ProjectIAMMember ''roles/viewer'' ''user:a@x.com'' [] ''first'' []),
           Some (ProjectIAMMember ''roles/viewer'' ''user:a@x.com'' [] ''second'' [])] []
          = Inr forEach
      \<and> length forEach < 2
      \<and> forEach = [(''roles/viewer user:a@x.com'',
            Some (ProjectIAMMember ''roles/viewer'' ''user:a@x.com'' [] ''second'' []))])"
proof -
  let ?a = "ProjectIAMMember ''roles/viewer'' ''user:a@x.com'' [] ''first'' []"
  let ?b = "ProjectIAMMember ''roles/viewer'' ''user:a@x.com'' [] ''second'' []"
  let ?ms = "\<lparr>Members = [Some ?a, Some ?b], DependsOn = [], project = ''proj1''\<rparr>"
  have h1: "\<not> distinct (map (\<lambda>m. (Role m, Member m)) [?a, ?b])" by simp
  have h2: "Members ?ms = map Some [?a, ?b]" by simp
  from forEach_last_write_wins [OF h1 h2] obtain forEach where
    "forEach_range (Members ?ms) [] = Inr forEach" "length forEach < length [?a, ?b]"
    by (elim exE conjE) (rule that)
  then have "forEach_range [Some ?a, Some ?b] [] = Inr forEach \<and> length forEach < 2
      \<and> forEach = [(''roles/viewer user:a@x.com'', Some ?b)]"
    by (auto simp: forEach_key_def)
  with h1 show ?thesis by blast
qed

text \<open>
  Claim C4. For the members \<open>roles/viewer user:a@x.com\<close> and
  \<open>roles/editor user:b@x.com\<close>, \<open>Init(''proj1'')\<close> returns nil and binds the project, and
  \<open>MarshalJSON\<close> then returns an object with \<open>role = ''${each.value.role}''\<close>,
  \<open>member = ''${each.value.member}''\<close>, \<open>project = ''proj1''\<close> and a \<open>for_each\<close> object
  whose keys are exactly the two keys \<open>''roles/viewer user:a@x.com''\<close> and
  \<open>''roles/editor user:b@x.com''\<close>; \<open>depends_on\<close> follows when the instance has
  dependencies. The whole document is given.
\<close>

theorem example_proj1:
  "ProjectIAMMembers_Init ''proj1''
      \<lparr>Members = [Some (ProjectIAMMember ''roles/viewer'' ''user:a@x.com'' [] [] []),
                  Some (ProjectIAMMember ''roles/editor'' ''user:b@x.com'' [] [] [])],
       DependsOn = deps, project = p0\<rparr>
    = (\<lparr>Members = [Some (ProjectIAMMember ''roles/viewer'' ''user:a@x.com'' [] [] []),
                  Some (ProjectIAMMember ''roles/editor'' ''user:b@x.com'' [] [] [])],
        DependsOn = deps, project = ''proj1''\<rparr>, None)
   \<and> snd (MarshalJSON
        \<lparr>Members = [Some (ProjectIAMMember ''roles/viewer'' ''user:a@x.com'' [] [] []),
                    Some (ProjectIAMMember ''roles/editor'' ''user:b@x.com'' [] [] [])],
         DependsOn = deps, project = ''proj1''\<rparr>)
    = Inr (JObject
        ([(''role'', JString ''${each.value.role}''),
          (''member'', JString ''${each.value.member}''),
          (''for_each'', JObject
             [(''roles/editor user:b@x.com'',
                 JObject [(''role'', JString ''roles/editor''), (''member'', JString ''user:b@x.com'')]),
              (''roles/viewer user:a@x.com'',
                 JObject [(''role'', JString ''roles/viewer''), (''member'', JString ''user:a@x.com'')])]),
          (''project'', JString ''proj1'')]
         @ (if deps = [] then []
            else [(''depends_on'', JArray (map (\<lambda>s. JString (utf8_coerced s)) deps))])))
   \<and> (\<exists>j entries.
        snd (MarshalJSON (fst (ProjectIAMMembers_Init ''proj1''
          \<lparr>Members = [Some (ProjectIAMMember ''roles/viewer'' ''user:a@x.com'' [] [] []),
                      Some (ProjectIAMMember ''roles/editor'' ''user:b@x.com'' [] [] [])],
           DependsOn = deps, project = p0\<rparr>))) = Inr j
      \<and> json_field ''project'' j = Some (JString ''proj1'')
      \<and> json_field ''role'' j = Some (JString ''${each.value.role}'')
      \<and> json_field ''member'' j = Some (JString ''${each.value.member}'')
      \<and> json_field ''for_each'' j = Some (JObject entries)
      \<and> length entries = 2
      \<and> set (map fst entries) = {''roles/viewer user:a@x.com'', ''roles/editor user:b@x.com''})"
  by (auto simp add: ProjectIAMMembers_Init_def MarshalJSON_def MarshalJSON_value_def
      json_Marshal_def forEach_key_def json_map_fields_def utf8_coerced_ascii)

text \<open>
  Claim C5. Whenever \<open>UnmarshalJSON\<close> accepts a document, the document is \<open>null\<close>, and
  \<open>Members\<close> is then empty, or it is an array, and \<open>Members\<close> then holds the list the
  library decoded from the array's elements; \<open>DependsOn\<close> and \<open>project\<close> are as before.
  \<open>MarshalJSON\<close> on the instance so decoded never returns the document that was
  decoded. It panics when the decoded list has a nil member (an array element \<open>null\<close>);
  otherwise it returns one object with the placeholders under \<open>role\<close> and \<open>member\<close>
  and, unless the decoded list is empty, a \<open>for_each\<close> object built from the decoded
  members: the map has exactly their keys, each with the last member of that key, and the
  object has one field per entry of the map, the key as written with that member's
  encoding. This holds whatever the library does with the array's elements. Two
  different JSON documents have different texts, so the bytes differ as well.
\<close>

theorem unmarshal_marshal_changes_shape:
  assumes "UnmarshalJSON elems b ms = (ms', None)"
  shows "(b = JNull \<and> Members ms' = []
          \<or> (\<exists>xs. b = JArray xs \<and> elems xs (Members ms) = (Members ms', None)))
    \<and> DependsOn ms' = DependsOn ms
    \<and> project ms' = project ms
    \<and> snd (MarshalJSON ms') \<noteq> Inr b
    \<and> (None \<in> set (Members ms') \<and> snd (MarshalJSON ms') = Inl NilPointerDereference
       \<or> (\<exists>members forEach fields.
            Members ms' = map Some members
          \<and> forEach_range (Members ms') [] = Inr forEach
          \<and> distinct (map fst forEach)
          \<and> fst ` set forEach = forEach_key ` set members
          \<and> (\<forall>m\<in>set members.
                map_of forEach (forEach_key m) =
                  Some (Some (last (filter (\<lambda>x. forEach_key x = forEach_key m) members))))
          \<and> snd (MarshalJSON ms') = Inr (JObject fields)
          \<and> JObject fields = json_of_member (MarshalJSON_value ms' forEach)
          \<and> json_field ''role'' (JObject fields) = Some (JString ''${each.value.role}'')
          \<and> json_field ''member'' (JObject fields) = Some (JString ''${each.value.member}'')
          \<and> json_field ''for_each'' (JObject fields) =
              (if members = [] then None
               else Some (JObject (json_map_fields (json_of_entries forEach))))
          \<and> length (json_map_fields (json_of_entries forEach)) = length forEach
          \<and> set (json_map_fields (json_of_entries forEach)) =
              (\<lambda>m. (utf8_coerced (forEach_key m),
                     json_of_member
                       (last (filter (\<lambda>x. forEach_key x = forEach_key m) members))))
                ` set members))"
proof -
  note u = UnmarshalJSON_result [OF assms]
  have shape: "b = JNull \<or> (\<exists>xs. b = JArray xs)"
    using u(1) by blast
  have out: "None \<in> set (Members ms') \<and> snd (MarshalJSON ms') = Inl NilPointerDereference
       \<or> (\<exists>members forEach fields.
            Members ms' = map Some members
          \<and> forEach_range (Members ms') [] = Inr forEach
          \<and> distinct (map fst forEach)
          \<and> fst ` set forEach = forEach_key ` set members
          \<and> (\<forall>m\<in>set members.
                map_of forEach (forEach_key m) =
                  Some (Some (last (filter (\<lambda>x. forEach_key x = forEach_key m) members))))
          \<and> snd (MarshalJSON ms') = Inr (JObject fields)
          \<and> JObject fields = json_of_member (MarshalJSON_value ms' forEach)
          \<and> json_field ''role'' (JObject fields) = Some (JString ''${each.value.role}'')
          \<and> json_field ''member'' (JObject fields) = Some (JString ''${each.value.member}'')
          \<and> json_field ''for_each'' (JObject fields) =
              (if members = [] then None
               else Some (JObject (json_map_fields (json_of_entries forEach))))
          \<and> length (json_map_fields (json_of_entries forEach)) = length forEach
          \<and> set (json_map_fields (json_of_entries forEach)) =
              (\<lambda>m. (utf8_coerced (forEach_key m),
                     json_of_member
                       (last (filter (\<lambda>x. forEach_key x = forEach_key m) members))))
                ` set members)"
    (is "?panic \<or> ?doc")
    using list_option_cases [of "Members ms'"]
  proof
    assume "None \<in> set (Members ms')"
    then have ?panic
      by (simp add: MarshalJSON_nil)
    then show ?thesis ..
  next
    assume "\<exists>xs. Members ms' = map Some xs"
    then obtain members where m: "Members ms' = map Some members" ..
    let ?fe = "fold (\<lambda>m. AList.update (forEach_key m) (Some m)) members []"
    obtain fields where f: "json_of_member (MarshalJSON_value ms' ?fe) = JObject fields"
      by (simp add: MarshalJSON_value_def)
    have r: "forEach_range (Members ms') [] = Inr ?fe"
      using m by (rule MarshalJSON_Some(1))
    have d: "distinct (map fst ?fe)"
      by (rule fold_update_distinct) simp
    have keys: "fst ` set ?fe = forEach_key ` set members"
      using fold_update_keys [of forEach_key Some members "[]"] by simp
    have look: "\<forall>m\<in>set members. map_of ?fe (forEach_key m) =
        Some (Some (last (filter (\<lambda>x. forEach_key x = forEach_key m) members)))"
      by (simp add: fold_update_lookup)
    have o: "snd (MarshalJSON ms') = Inr (JObject fields)"
      using MarshalJSON_Some(2) [OF m] by (simp only: f)
    have fr: "json_field ''role'' (JObject fields) = Some (JString ''${each.value.role}'')"
      and fm: "json_field ''member'' (JObject fields) = Some (JString ''${each.value.member}'')"
      using role_member_fields [of ms' ?fe] by (simp_all only: f)
    have e: "(?fe = []) = (members = [])"
      using fold_update_nonempty [of members forEach_key Some "[]"] by auto
    have ff: "json_field ''for_each'' (JObject fields) =
        (if members = [] then None else Some (JObject (json_map_fields (json_of_entries ?fe))))"
      using for_each_field [of ms' ?fe] by (simp only: f e)
    have le: "length (json_map_fields (json_of_entries ?fe)) = length ?fe"
      by (rule for_each_entries_length)
    have es: "set (json_map_fields (json_of_entries ?fe)) =
        (\<lambda>m. (utf8_coerced (forEach_key m),
           json_of_member (last (filter (\<lambda>x. forEach_key x = forEach_key m) members))))
          ` set members"
      by (rule forEach_entries_set)
    from m r d keys look o f [symmetric] fr fm ff le es have ?doc
      by blast
    then show ?thesis ..
  qed
  have ne: "snd (MarshalJSON ms') \<noteq> Inr b"
    using shape out by auto
  from u ne out show ?thesis
    by blast
qed

text \<open>An array with one member, decoded into an empty instance, and the document that
  \<open>MarshalJSON\<close> returns for it.\<close>

theorem unmarshal_marshal_changes_shape_witness:
  "UnmarshalJSON
      (\<lambda>xs v. ([Some (ProjectIAMMember ''roles/viewer'' ''user:a@x.com'' [] [] [])], None))
      (JArray [JObject [(''role'', JString ''roles/viewer''),
                        (''member'', JString ''user:a@x.com'')]])
      \<lparr>Members = [], DependsOn = [], project = []\<rparr>
     = (\<lparr>Members = [Some (ProjectIAMMember ''roles/viewer'' ''user:a@x.com'' [] [] [])],
         DependsOn = [], project = []\<rparr>, None)
   \<and> snd (MarshalJSON
        \<lparr>Members = [Some (ProjectIAMMember ''roles/viewer'' ''user:a@x.com'' [] [] [])],
         DependsOn = [], project = []\<rparr>)
     \<noteq> Inr (JArray [JObject [(''role'', JString ''roles/viewer''),
                              (''member'', JString ''user:a@x.com'')]])
   \<and> snd (MarshalJSON
        \<lparr>Members = [Some (ProjectIAMMember ''roles/viewer'' ''user:a@x.com'' [] [] [])],
         DependsOn = [], project = []\<rparr>)
     = Inr (JObject
        [(''role'', JString ''${each.value.role}''),
         (''member'', JString ''${each.value.member}''),
         (''for_each'', JObject
            [(''roles/viewer user:a@x.com'',
                JObject [(''role'', JString ''roles/viewer''),
                         (''member'', JString ''user:a@x.com'')])])])"
proof -
  let ?elems = "\<lambda>(xs :: json list) (v :: ProjectIAMMember option list).
      ([Some (ProjectIAMMember ''roles/viewer'' ''user:a@x.com'' [] [] [])], None :: error option)"
  let ?b = "JArray [JObject [(''role'', JString ''roles/viewer''),
                             (''member'', JString ''user:a@x.com'')]]"
  let ?ms = "\<lparr>Members = [], DependsOn = [], project = []\<rparr>"
  let ?ms' = "\<lparr>Members = [Some (ProjectIAMMember ''roles/viewer'' ''user:a@x.com'' [] [] [])],
      DependsOn = [], project = []\<rparr>"
  have h: "UnmarshalJSON ?elems ?b ?ms = (?ms', None)"
    by (simp add: UnmarshalJSON_def json_Unmarshal_slice_def)
  have o: "snd (MarshalJSON ?ms') = Inr (JObject
        [(''role'', JString ''${each.value.role}''),
         (''member'', JString ''${each.value.member}''),
         (''for_each'', JObject
            [(''roles/viewer user:a@x.com'',
                JObject [(''role'', JString ''roles/viewer''),
                         (''member'', JString ''user:a@x.com'')])])])"
    by (simp add: MarshalJSON_def MarshalJSON_value_def json_Marshal_def forEach_key_def
        json_map_fields_def utf8_coerced_ascii)
  from unmarshal_marshal_changes_shape [OF h] have "snd (MarshalJSON ?ms') \<noteq> Inr ?b"
    by blast
  with h o show ?thesis by blast
qed

text \<open>
  Claim C2, as amended. For every \<open>ServiceAccount\<close> whose \<open>Project\<close> is empty, or is
  already \<open>p1\<close>, and every non-empty \<open>p1\<close> (such as \<open>''p1''\<close>), calling \<open>Init(p1)\<close> and
  then \<open>Init(p2)\<close> makes the second call return the error whose message carries \<open>p1\<close>,
  leaves the instance as the first call left it, and leaves \<open>Project\<close> equal to \<open>p1\<close>.
\<close>

theorem ServiceAccount_Init_twice:
  assumes "p1 \<noteq> []" and "Project a = [] \<or> Project a = p1"
  shows "snd (ServiceAccount_Init p2 (fst (ServiceAccount_Init p1 a)))
           = Some (Errorf (''project must not be set: '' @ p1))
    \<and> fst (ServiceAccount_Init p2 (fst (ServiceAccount_Init p1 a)))
           = fst (ServiceAccount_Init p1 a)
    \<and> Project (fst (ServiceAccount_Init p2 (fst (ServiceAccount_Init p1 a)))) = p1"
  using assms by (auto simp: ServiceAccount_Init_def)

text \<open>The theorem at a new account and the arguments \<open>''p1''\<close> and \<open>''p2''\<close>.\<close>

theorem ServiceAccount_Init_twice_witness:
  "''p1'' \<noteq> []
   \<and> (Project \<lparr>AccountID = ''acct'', Project = [], DisplayName = ''Account''\<rparr> = []
      \<or> Project \<lparr>AccountID = ''acct'', Project = [], DisplayName = ''Account''\<rparr> = ''p1'')
   \<and> snd (ServiceAccount_Init ''p2'' (fst (ServiceAccount_Init ''p1''
        \<lparr>AccountID = ''acct'', Project = [], DisplayName = ''Account''\<rparr>)))
       = Some (Errorf ''project must not be set: p1'')
   \<and> Project (fst (ServiceAccount_Init ''p2'' (fst (ServiceAccount_Init ''p1''
        \<lparr>AccountID = ''acct'', Project = [], DisplayName = ''Account''\<rparr>)))) = ''p1''"
proof -
  let ?a = "\<lparr>AccountID = ''acct'', Project = [], DisplayName = ''Account''\<rparr>"
  have h1: "''p1'' \<noteq> []" by simp
  have h2: "Project ?a = [] \<or> Project ?a = ''p1''" by simp
  have e: "''project must not be set: '' @ ''p1'' = ''project must not be set: p1''" by simp
  from ServiceAccount_Init_twice [OF h1 h2, of "''p2''", unfolded e] h1 h2
  show ?thesis by blast
qed

text \<open>
  Claim C2 as stated speaks of every instance. On an instance already bound to
  \<open>''p0''\<close> both calls fail: the second error carries \<open>''p0''\<close> and \<open>Project\<close> stays
  \<open>''p0''\<close>.
\<close>

theorem ServiceAccount_Init_twice_already_bound:
  "snd (ServiceAccount_Init ''p2'' (fst (ServiceAccount_Init ''p1''
        \<lparr>AccountID = ''acct'', Project = ''p0'', DisplayName = ''Account''\<rparr>)))
       = Some (Errorf ''project must not be set: p0'')
   \<and> Project (fst (ServiceAccount_Init ''p2'' (fst (ServiceAccount_Init ''p1''
        \<lparr>AccountID = ''acct'', Project = ''p0'', DisplayName = ''Account''\<rparr>)))) = ''p0''
   \<and> ''p0'' \<noteq> ''p1''"
  by (simp add: ServiceAccount_Init_def)

text \<open>
  Claim C6, as amended. A \<open>ServiceAccount\<close> whose \<open>Project\<close> is non-empty (initialized)
  is left as it is by every sequence of \<open>Init\<close>, \<open>ID\<close> and \<open>ResourceType\<close> calls, and
  \<open>Init\<close> fails on it afterwards: it is never moved back to uninitialized nor bound to
  another project. \<open>ProjectIAMMembers\<close> has no such guard: its \<open>Init\<close> binds \<open>project\<close>
  to the argument on every call.
\<close>

theorem ServiceAccount_bound_once:
  assumes "Project a \<noteq> []"
  shows "ServiceAccount_calls cs a = a
    \<and> snd (ServiceAccount_Init projectID (ServiceAccount_calls cs a)) \<noteq> None
    \<and> project (fst (ProjectIAMMembers_Init projectID ms)) = projectID"
proof -
  have "fold ServiceAccount_after cs a = a"
    using assms by (induction cs) (simp_all add: ServiceAccount_after_bound)
  then show ?thesis
    using assms by (simp add: ServiceAccount_calls_def ServiceAccount_Init_def
        ProjectIAMMembers_Init_def)
qed

text \<open>An account bound to \<open>''p1''\<close>, after four calls.\<close>

theorem ServiceAccount_bound_once_witness:
  "Project \<lparr>AccountID = ''acct'', Project = ''p1'', DisplayName = ''Account''\<rparr> \<noteq> []
   \<and> ServiceAccount_calls [Call_Init ''p2'', Call_ID, Call_Init [], Call_ResourceType]
        \<lparr>AccountID = ''acct'', Project = ''p1'', DisplayName = ''Account''\<rparr>
       = \<lparr>AccountID = ''acct'', Project = ''p1'', DisplayName = ''Account''\<rparr>"
proof -
  let ?a = "\<lparr>AccountID = ''acct'', Project = ''p1'', DisplayName = ''Account''\<rparr>"
  have h: "Project ?a \<noteq> []" by simp
  from ServiceAccount_bound_once [OF h] h show ?thesis by blast
qed

text \<open>
  Claim C6 as stated includes \<open>ProjectIAMMembers\<close>. An instance bound to \<open>''p1''\<close> is
  bound to \<open>''p2''\<close> by a second \<open>Init\<close>, and to the empty project by \<open>Init\<close> with the
  empty string.
\<close>

theorem ProjectIAMMembers_Init_rebinds:
  "project (fst (ProjectIAMMembers_Init ''p1'' \<lparr>Members = [], DependsOn = [], project = []\<rparr>))
      = ''p1''
   \<and> project (fst (ProjectIAMMembers_Init ''p2''
        (fst (ProjectIAMMembers_Init ''p1'' \<lparr>Members = [], DependsOn = [], project = []\<rparr>))))
      = ''p2''
   \<and> project (fst (ProjectIAMMembers_Init []
        (fst (ProjectIAMMembers_Init ''p1'' \<lparr>Members = [], DependsOn = [], project = []\<rparr>))))
      = []
   \<and> ''p1'' \<noteq> ''p2''"
  by (simp add: ProjectIAMMembers_Init_def)

text \<open>
  Claim C7. For every \<open>ProjectIAMMembers\<close> instance, \<open>ID\<close> returns \<open>''project''\<close>, and
  \<open>Init(projectID)\<close> returns nil, records \<open>projectID\<close> as the project and leaves
  \<open>Members\<close> and \<open>DependsOn\<close> alone.
\<close>

theorem ProjectIAMMembers_ID_Init:
  "ProjectIAMMembers_ID ms = ''project''
   \<and> snd (ProjectIAMMembers_Init projectID ms) = None
   \<and> project (fst (ProjectIAMMembers_Init projectID ms)) = projectID
   \<and> Members (fst (ProjectIAMMembers_Init projectID ms)) = Members ms
   \<and> DependsOn (fst (ProjectIAMMembers_Init projectID ms)) = DependsOn ms"
  by (simp add: ProjectIAMMembers_ID_def ProjectIAMMembers_Init_def)

text \<open>
  Claim C8. \<open>ServiceAccount.ResourceType\<close> returns \<open>''google_service_account''\<close> and
  \<open>ProjectIAMMembers.ResourceType\<close> returns \<open>''google_project_iam_member''\<close>, the same
  on any two instances.
\<close>

theorem ResourceType_fixed:
  "ServiceAccount_ResourceType a = ''google_service_account''
   \<and> ServiceAccount_ResourceType a = ServiceAccount_ResourceType a'
   \<and> ProjectIAMMembers_ResourceType ms = ''google_project_iam_member''
   \<and> ProjectIAMMembers_ResourceType ms = ProjectIAMMembers_ResourceType ms'"
  by (simp add: ServiceAccount_ResourceType_def ProjectIAMMembers_ResourceType_def)

text \<open>
  Claim C9. \<open>ServiceAccount.Init\<close> fails exactly when \<open>Project\<close> is non-empty at the
  call, whatever the argument. On an instance with empty \<open>Project\<close>, \<open>Init\<close> with the
  empty string succeeds and leaves \<open>Project\<close> empty, so that a following \<open>Init\<close> with
  any project succeeds too and binds that project.
\<close>

theorem ServiceAccount_Init_guard:
  "(snd (ServiceAccount_Init projectID a) \<noteq> None) = (Project a \<noteq> [])
   \<and> (snd (ServiceAccount_Init projectID a) \<noteq> None) = (snd (ServiceAccount_Init projectID' a) \<noteq> None)
   \<and> ServiceAccount_Init [] \<lparr>AccountID = accountID, Project = [], DisplayName = displayName\<rparr>
       = (\<lparr>AccountID = accountID, Project = [], DisplayName = displayName\<rparr>, None)
   \<and> ServiceAccount_Init projectID (fst (ServiceAccount_Init []
         \<lparr>AccountID = accountID, Project = [], DisplayName = displayName\<rparr>))
       = (\<lparr>AccountID = accountID, Project = projectID, DisplayName = displayName\<rparr>, None)"
  by (simp add: ServiceAccount_Init_def)

text \<open>
  Claim C10. \<open>ProjectIAMMembers.MarshalJSON\<close> leaves its receiver as it was, in
  \<open>Members\<close>, \<open>DependsOn\<close> and \<open>project\<close>, and a second call returns what the first
  returned.
\<close>

theorem MarshalJSON_frame:
  "fst (MarshalJSON ms) = ms
   \<and> Members (fst (MarshalJSON ms)) = Members ms
   \<and> DependsOn (fst (MarshalJSON ms)) = DependsOn ms
   \<and> project (fst (MarshalJSON ms)) = project ms
   \<and> snd (MarshalJSON (fst (MarshalJSON ms))) = snd (MarshalJSON ms)"
  by (simp add: MarshalJSON_def)

end
